theory Spec2Isabelle
  imports Complex_Main "HOL-Library.Product_Lexorder"
begin

section \<open>A* path finding on a weighted directed graph (WardCS330Program3.py)\<close>

text \<open>
  The program loads a node table and a table of directed, weighted connections and runs
  A* between pairs of node ids. This theory embeds the heuristic \<open>h\<close> and the search
  \<open>astar\<close> of the source and verifies its specification.

  Node ids are Python ints. A cost is a Python float, that is a double, or the value
  \<open>math.inf\<close> where the source uses it (the default of \<open>g_cost\<close> and \<open>f_cost\<close>, the cost
  of "no route"); the node coordinates and the edge costs of a graph are finite. The
  search is embedded twice. In the functions \<open>h\<close>, \<open>relax\<close>, \<open>expand\<close>, \<open>astar\<close> and their
  companions a float is a real number and the arithmetic is exact. In the functions
  \<open>h_fl\<close>, \<open>relax_fl\<close>, \<open>expand_fl\<close>, \<open>astar_fl\<close> and their companions every operation
  rounds its result to a double, as the interpreter does. The two searches agree on a
  finite graph with nonnegative costs on which no operation rounds (\<open>astar_fl_exact\<close>);
  on costs of very different magnitude they return different paths and costs.
\<close>

subsection \<open>Costs: a float that may be \<open>math.inf\<close>\<close>

datatype ecost = Fin real | PInf

instantiation ecost :: linorder
begin

fun less_eq_ecost :: "ecost \<Rightarrow> ecost \<Rightarrow> bool" where
  "less_eq_ecost (Fin a) (Fin b) = (a \<le> b)"
| "less_eq_ecost PInf (Fin b) = False"
| "less_eq_ecost a PInf = True"

definition less_ecost :: "ecost \<Rightarrow> ecost \<Rightarrow> bool" where
  "less_ecost a b = (a \<le> b \<and> \<not> b \<le> (a::ecost))"

instance
proof
  fix a b c :: ecost
  show "(a < b) = (a \<le> b \<and> \<not> b \<le> a)"
    by (simp add: less_ecost_def)
  show "a \<le> a"
    by (cases a) simp_all
  show "a \<le> b \<Longrightarrow> b \<le> c \<Longrightarrow> a \<le> c"
    by (cases a; cases b; cases c) simp_all
  show "a \<le> b \<Longrightarrow> b \<le> a \<Longrightarrow> a = b"
    by (cases a; cases b) simp_all
  show "a \<le> b \<or> b \<le> a"
    by (cases a; cases b) auto
qed

end

text \<open>\<open>g_cost[current] + cost\<close> in exact arithmetic: adding a float to a possibly infinite cost.\<close>

fun eadd :: "ecost \<Rightarrow> real \<Rightarrow> ecost" where
  "eadd (Fin a) c = Fin (a + c)"
| "eadd PInf c = PInf"

subsection \<open>The graph and the search state\<close>

text \<open>A node of the \<open>nodes\<close> dict: \<open>{"x": float, "z": float, "name": str}\<close>.\<close>

record node_info =
  node_x :: real
  node_z :: real
  node_name :: string

text \<open>A failed dict lookup \<open>nodes[k]\<close> raises \<open>KeyError(k)\<close>.\<close>

datatype error = KeyError int

text \<open>
  Everything \<open>astar\<close> holds a reference to: the caller's two graph objects (\<open>nodes\<close>, a dict
  from id to node, and \<open>edges\<close>, a dict from id to the list of \<open>(to_id, cost)\<close> pairs) and
  its own local search state. The default-valued dicts \<open>g_cost\<close> and \<open>f_cost\<close>
  (\<open>defaultdict(lambda: math.inf)\<close>) are total functions.
\<close>

record astate =
  nodes :: "int \<rightharpoonup> node_info"
  edges :: "int \<rightharpoonup> (int \<times> real) list"
  open_set :: "int set"
  closed_set :: "int set"
  g_cost :: "int \<Rightarrow> ecost"
  f_cost :: "int \<Rightarrow> ecost"
  prev :: "int \<rightharpoonup> int"

subsection \<open>The heuristic\<close>

text \<open>\<open>math.hypot(dx, dz)\<close> in exact arithmetic.\<close>

definition hypot :: "real \<Rightarrow> real \<Rightarrow> real" where
  "hypot dx dz = sqrt (dx * dx + dz * dz)"

text \<open>
  \<open>h(nodes, a, b)\<close>: the straight-line distance; \<open>nodes[b]\<close> is looked up first, then
  \<open>nodes[a]\<close>, and either lookup raises \<open>KeyError\<close> on an unknown id.
\<close>

definition h :: "(int \<rightharpoonup> node_info) \<Rightarrow> int \<Rightarrow> int \<Rightarrow> error + real" where
  "h N a b =
     (case N b of
        None \<Rightarrow> Inl (KeyError b)
      | Some nb \<Rightarrow>
          (case N a of
             None \<Rightarrow> Inl (KeyError a)
           | Some na \<Rightarrow>
               (let dx = node_x nb - node_x na;
                    dz = node_z nb - node_z na
                in Inr (hypot dx dz))))"

subsection \<open>The search\<close>

text \<open>
  \<open>min(open_set, key=lambda n: (f_cost[n], n))\<close>: the node of the open set with the
  least pair \<open>(f, id)\<close> in the lexicographic order of tuples.
\<close>

definition select :: "astate \<Rightarrow> int" where
  "select st = snd (Min ((\<lambda>n. (f_cost st n, n)) ` open_set st))"

text \<open>
  The path rebuild \<open>while path[0] in prev: path.appendleft(prev[path[0]])\<close>; the deque
  is the head \<open>n\<close> followed by \<open>rest\<close>. The loop does not return when \<open>prev\<close> has a
  cycle: the result is then \<open>None\<close>.
\<close>

partial_function (option) rebuild :: "(int \<rightharpoonup> int) \<Rightarrow> int \<Rightarrow> int list \<Rightarrow> int list option" where
  "rebuild pv n rest =
     (case pv n of
        None \<Rightarrow> Some (n # rest)
      | Some p \<Rightarrow> rebuild pv p (n # rest))"

text \<open>
  The three assignments that record the best-so-far route. The call of \<open>h\<close> comes last,
  so a \<open>KeyError\<close> leaves \<open>prev\<close> and \<open>g_cost\<close> already written. A step returns the state
  it reached together with the exception it raised, if any.
\<close>

definition record_route :: "int \<Rightarrow> int \<Rightarrow> int \<Rightarrow> ecost \<Rightarrow> astate \<Rightarrow> astate \<times> error option" where
  "record_route goal current to_id tentative_g st =
     (let st1 = st\<lparr>prev := (prev st)(to_id \<mapsto> current)\<rparr>;
          st2 = st1\<lparr>g_cost := (g_cost st1)(to_id := tentative_g)\<rparr>
      in case h (nodes st2) to_id goal of
           Inl e \<Rightarrow> (st2, Some e)
         | Inr hv \<Rightarrow> (st2\<lparr>f_cost := (f_cost st2)(to_id := eadd tentative_g hv)\<rparr>, None))"

text \<open>The body of \<open>for to_id, cost in edges.get(current, [])\<close>, for one edge.\<close>

definition relax :: "int \<Rightarrow> int \<Rightarrow> astate \<Rightarrow> int \<times> real \<Rightarrow> astate \<times> error option" where
  "relax goal current st e =
     (case e of (to_id, cost) \<Rightarrow>
        (let tentative_g = eadd (g_cost st current) cost;
             st1 = (if to_id \<in> closed_set st \<and> tentative_g < g_cost st to_id
                    then st\<lparr>closed_set := closed_set st - {to_id},
                            open_set := insert to_id (open_set st)\<rparr>
                    else st)
         in if to_id \<notin> open_set st1 \<and> to_id \<notin> closed_set st1
            then record_route goal current to_id tentative_g
                   (st1\<lparr>open_set := insert to_id (open_set st1)\<rparr>)
            else if tentative_g \<ge> g_cost st1 to_id then (st1, None)
            else record_route goal current to_id tentative_g st1))"

text \<open>The \<open>for\<close> loop over the outgoing edges; an exception ends it.\<close>

fun relax_all :: "int \<Rightarrow> int \<Rightarrow> (int \<times> real) list \<Rightarrow> astate \<Rightarrow> astate \<times> error option" where
  "relax_all goal current [] st = (st, None)"
| "relax_all goal current (e # es) st =
     (case relax goal current st e of
        (st', Some err) \<Rightarrow> (st', Some err)
      | (st', None) \<Rightarrow> relax_all goal current es st')"

text \<open>\<open>edges.get(current, [])\<close>: a lookup with a default, which does not insert.\<close>

definition edges_get :: "(int \<rightharpoonup> (int \<times> real) list) \<Rightarrow> int \<Rightarrow> (int \<times> real) list" where
  "edges_get E k = (case E k of None \<Rightarrow> [] | Some l \<Rightarrow> l)"

text \<open>Expansion of the selected node: move it to the closed set, relax its edges.\<close>

definition expand :: "int \<Rightarrow> int \<Rightarrow> astate \<Rightarrow> astate \<times> error option" where
  "expand goal current st =
     (let st1 = st\<lparr>open_set := open_set st - {current}\<rparr>;
          st2 = st1\<lparr>closed_set := insert current (closed_set st1)\<rparr>
      in relax_all goal current (edges_get (edges st2) current) st2)"

text \<open>
  The \<open>while open_set\<close> loop. It returns the value of \<open>astar\<close> (a raised exception, or the
  pair of path and cost) and the state at that moment; \<open>None\<close> means that the loop, or
  the path rebuild inside it, does not return.
\<close>

type_synonym result = "error + int list \<times> ecost"

partial_function (option) astar_loop :: "int \<Rightarrow> astate \<Rightarrow> (result \<times> astate) option" where
  "astar_loop goal st =
     (if open_set st = {} then Some (Inr ([], PInf), st)
      else
        (let current = select st
         in if current = goal
            then (case rebuild (prev st) goal [] of
                    None \<Rightarrow> None
                  | Some path \<Rightarrow> Some (Inr (path, g_cost st goal), st))
            else (case expand goal current st of
                    (st', Some err) \<Rightarrow> Some (Inl err, st')
                  | (st', None) \<Rightarrow> astar_loop goal st')))"

text \<open>The state on entry to the loop, or the exception of the first call of \<open>h\<close>.\<close>

definition init :: "(int \<rightharpoonup> node_info) \<Rightarrow> (int \<rightharpoonup> (int \<times> real) list) \<Rightarrow> int \<Rightarrow> int
    \<Rightarrow> astate \<times> error option" where
  "init N E start goal =
     (let st0 = \<lparr>nodes = N, edges = E, open_set = {start}, closed_set = {},
                 g_cost = (\<lambda>_. PInf), f_cost = (\<lambda>_. PInf), prev = Map.empty\<rparr>;
          st1 = st0\<lparr>g_cost := (g_cost st0)(start := Fin 0)\<rparr>
      in case h (nodes st1) start goal of
           Inl e \<Rightarrow> (st1, Some e)
         | Inr hv \<Rightarrow> (st1\<lparr>f_cost := (f_cost st1)(start := Fin hv)\<rparr>, None))"

text \<open>\<open>astar\<close> with the final state, and \<open>astar\<close> as the caller sees its value.\<close>

definition astar_run :: "(int \<rightharpoonup> node_info) \<Rightarrow> (int \<rightharpoonup> (int \<times> real) list) \<Rightarrow> int \<Rightarrow> int
    \<Rightarrow> (result \<times> astate) option" where
  "astar_run N E start goal =
     (case init N E start goal of
        (st, Some e) \<Rightarrow> Some (Inl e, st)
      | (st, None) \<Rightarrow> astar_loop goal st)"

definition astar :: "(int \<rightharpoonup> node_info) \<Rightarrow> (int \<rightharpoonup> (int \<times> real) list) \<Rightarrow> int \<Rightarrow> int
    \<Rightarrow> result option" where
  "astar N E start goal = map_option fst (astar_run N E start goal)"

text \<open>
  A call returns a value to its caller when it neither ends by an exception nor fails to
  return.
\<close>

definition returns_value :: "result option \<Rightarrow> bool" where
  "returns_value r = (case r of Some (Inr v) \<Rightarrow> True | _ \<Rightarrow> False)"

subsection \<open>Double precision\<close>

text \<open>
  A Python float is an IEEE 754 binary64 number, and every arithmetic operation returns
  the double nearest to the exact result, ties going to the even significand. For a real
  \<open>x\<close>, \<open>expo x\<close> is the exponent of its binade (not below that of the subnormal numbers),
  \<open>ulp x\<close> the distance of neighbouring doubles there, and \<open>rnd x\<close> the rounded value
  before the range check.
\<close>

definition expo :: "real \<Rightarrow> int" where
  "expo x = max \<lfloor>log 2 \<bar>x\<bar>\<rfloor> (- 1022)"

definition ulp :: "real \<Rightarrow> real" where
  "ulp x = 2 powr of_int (expo x - 52)"

definition round_even :: "real \<Rightarrow> int" where
  "round_even y =
     (let n = \<lfloor>y\<rfloor>
      in if y - of_int n < 1 / 2 then n
         else if 1 / 2 < y - of_int n then n + 1
         else if even n then n else n + 1)"

definition rnd :: "real \<Rightarrow> real" where
  "rnd x = (if x = 0 then 0 else of_int (round_even (x / ulp x)) * ulp x)"

text \<open>
  The result of an operation whose exact value is \<open>x\<close>: a result of \<open>2 ^ 1024\<close> or more
  is \<open>math.inf\<close>. Costs below the range of the doubles, which Python turns into \<open>-inf\<close>,
  need negative edge costs of the order of \<open>10 ^ 308\<close> and are not represented: the value
  stays finite here.
\<close>

definition to_float :: "real \<Rightarrow> ecost" where
  "to_float x = (let r = rnd x in if 2 ^ 1024 \<le> r then PInf else Fin r)"

text \<open>The sum of two floats of which either may be \<open>math.inf\<close>.\<close>

fun fadd :: "ecost \<Rightarrow> ecost \<Rightarrow> ecost" where
  "fadd (Fin a) (Fin b) = to_float (a + b)"
| "fadd PInf b = PInf"
| "fadd a PInf = PInf"

text \<open>
  \<open>math.hypot(dx, dz)\<close> on two differences of doubles, taken as correctly rounded. A
  difference out of range is \<open>inf\<close> or \<open>-inf\<close>, and so is then the result.
\<close>

definition hypot_fl :: "real \<Rightarrow> real \<Rightarrow> ecost" where
  "hypot_fl dx dz =
     (if 2 ^ 1024 \<le> \<bar>dx\<bar> \<or> 2 ^ 1024 \<le> \<bar>dz\<bar> then PInf else to_float (hypot dx dz))"

text \<open>\<open>h(nodes, a, b)\<close> in double precision.\<close>

definition h_fl :: "(int \<rightharpoonup> node_info) \<Rightarrow> int \<Rightarrow> int \<Rightarrow> error + ecost" where
  "h_fl N a b =
     (case N b of
        None \<Rightarrow> Inl (KeyError b)
      | Some nb \<Rightarrow>
          (case N a of
             None \<Rightarrow> Inl (KeyError a)
           | Some na \<Rightarrow>
               (let dx = rnd (node_x nb - node_x na);
                    dz = rnd (node_z nb - node_z na)
                in Inr (hypot_fl dx dz))))"

subsection \<open>The search in double precision\<close>

text \<open>
  The functions of the search once more, with the three arithmetic operations of the
  source (\<open>g_cost[current] + cost\<close>, \<open>tentative_g + h(...)\<close> and the heuristic) rounded as the
  interpreter rounds them. The selection and the path rebuild do no arithmetic.
\<close>

definition record_route_fl :: "int \<Rightarrow> int \<Rightarrow> int \<Rightarrow> ecost \<Rightarrow> astate \<Rightarrow> astate \<times> error option" where
  "record_route_fl goal current to_id tentative_g st =
     (let st1 = st\<lparr>prev := (prev st)(to_id \<mapsto> current)\<rparr>;
          st2 = st1\<lparr>g_cost := (g_cost st1)(to_id := tentative_g)\<rparr>
      in case h_fl (nodes st2) to_id goal of
           Inl e \<Rightarrow> (st2, Some e)
         | Inr hv \<Rightarrow> (st2\<lparr>f_cost := (f_cost st2)(to_id := fadd tentative_g hv)\<rparr>, None))"

definition relax_fl :: "int \<Rightarrow> int \<Rightarrow> astate \<Rightarrow> int \<times> real \<Rightarrow> astate \<times> error option" where
  "relax_fl goal current st e =
     (case e of (to_id, cost) \<Rightarrow>
        (let tentative_g = fadd (g_cost st current) (Fin cost);
             st1 = (if to_id \<in> closed_set st \<and> tentative_g < g_cost st to_id
                    then st\<lparr>closed_set := closed_set st - {to_id},
                            open_set := insert to_id (open_set st)\<rparr>
                    else st)
         in if to_id \<notin> open_set st1 \<and> to_id \<notin> closed_set st1
            then record_route_fl goal current to_id tentative_g
                   (st1\<lparr>open_set := insert to_id (open_set st1)\<rparr>)
            else if tentative_g \<ge> g_cost st1 to_id then (st1, None)
            else record_route_fl goal current to_id tentative_g st1))"

fun relax_all_fl :: "int \<Rightarrow> int \<Rightarrow> (int \<times> real) list \<Rightarrow> astate \<Rightarrow> astate \<times> error option" where
  "relax_all_fl goal current [] st = (st, None)"
| "relax_all_fl goal current (e # es) st =
     (case relax_fl goal current st e of
        (st', Some err) \<Rightarrow> (st', Some err)
      | (st', None) \<Rightarrow> relax_all_fl goal current es st')"

definition expand_fl :: "int \<Rightarrow> int \<Rightarrow> astate \<Rightarrow> astate \<times> error option" where
  "expand_fl goal current st =
     (let st1 = st\<lparr>open_set := open_set st - {current}\<rparr>;
          st2 = st1\<lparr>closed_set := insert current (closed_set st1)\<rparr>
      in relax_all_fl goal current (edges_get (edges st2) current) st2)"

partial_function (option) astar_loop_fl :: "int \<Rightarrow> astate \<Rightarrow> (result \<times> astate) option" where
  "astar_loop_fl goal st =
     (if open_set st = {} then Some (Inr ([], PInf), st)
      else
        (let current = select st
         in if current = goal
            then (case rebuild (prev st) goal [] of
                    None \<Rightarrow> None
                  | Some path \<Rightarrow> Some (Inr (path, g_cost st goal), st))
            else (case expand_fl goal current st of
                    (st', Some err) \<Rightarrow> Some (Inl err, st')
                  | (st', None) \<Rightarrow> astar_loop_fl goal st')))"

definition init_fl :: "(int \<rightharpoonup> node_info) \<Rightarrow> (int \<rightharpoonup> (int \<times> real) list) \<Rightarrow> int \<Rightarrow> int
    \<Rightarrow> astate \<times> error option" where
  "init_fl N E start goal =
     (let st0 = \<lparr>nodes = N, edges = E, open_set = {start}, closed_set = {},
                 g_cost = (\<lambda>_. PInf), f_cost = (\<lambda>_. PInf), prev = Map.empty\<rparr>;
          st1 = st0\<lparr>g_cost := (g_cost st0)(start := Fin 0)\<rparr>
      in case h_fl (nodes st1) start goal of
           Inl e \<Rightarrow> (st1, Some e)
         | Inr hv \<Rightarrow> (st1\<lparr>f_cost := (f_cost st1)(start := hv)\<rparr>, None))"

definition astar_run_fl :: "(int \<rightharpoonup> node_info) \<Rightarrow> (int \<rightharpoonup> (int \<times> real) list) \<Rightarrow> int \<Rightarrow> int
    \<Rightarrow> (result \<times> astate) option" where
  "astar_run_fl N E start goal =
     (case init_fl N E start goal of
        (st, Some e) \<Rightarrow> Some (Inl e, st)
      | (st, None) \<Rightarrow> astar_loop_fl goal st)"

definition astar_fl :: "(int \<rightharpoonup> node_info) \<Rightarrow> (int \<rightharpoonup> (int \<times> real) list) \<Rightarrow> int \<Rightarrow> int
    \<Rightarrow> result option" where
  "astar_fl N E start goal = map_option fst (astar_run_fl N E start goal)"

subsection \<open>Paths of the graph and their cost, recomputed from the edge lists\<close>

text \<open>
  The costs of the parallel edges from \<open>a\<close> to \<open>b\<close>, and the cost of a node sequence
  that takes the cheapest edge between each consecutive pair (\<open>None\<close> when a pair has
  no edge, or the sequence is empty).
\<close>

definition edge_costs :: "(int \<rightharpoonup> (int \<times> real) list) \<Rightarrow> int \<Rightarrow> int \<Rightarrow> real list" where
  "edge_costs E a b = map snd (filter (\<lambda>e. fst e = b) (edges_get E a))"

fun path_cost :: "(int \<rightharpoonup> (int \<times> real) list) \<Rightarrow> int list \<Rightarrow> real option" where
  "path_cost E [] = None"
| "path_cost E [a] = Some 0"
| "path_cost E (a # b # rest) =
     (case edge_costs E a b of
        [] \<Rightarrow> None
      | c # cs \<Rightarrow> map_option (\<lambda>r. Min (set (c # cs)) + r) (path_cost E (b # rest)))"


subsection \<open>Example graphs\<close>

text \<open>
  Small graphs on which the search is run below. All nodes lie on the line \<open>z = 0\<close>.
  \<open>chain\<close> is the three-node scenario of the specification; \<open>detour\<close> reaches node 2
  first by a long edge and later by a shorter route through node 3; \<open>diamond\<close> has two
  routes of equal cost; \<open>neg\<close> has edges of negative cost. \<open>detour_mid\<close> is the state of
  the search on \<open>detour\<close> when node 3 is about to be expanded.
\<close>

definition mk_node :: "real \<Rightarrow> real \<Rightarrow> node_info" where
  "mk_node px pz = \<lparr>node_x = px, node_z = pz, node_name = ''''\<rparr>"



definition detour_nodes :: "int \<rightharpoonup> node_info" where
  "detour_nodes = [1 \<mapsto> mk_node 0 0, 2 \<mapsto> mk_node 0 0, 3 \<mapsto> mk_node (- 10) 0,
                   4 \<mapsto> mk_node (- 6) 0, 5 \<mapsto> mk_node 1 0]"

definition detour_edges :: "int \<rightharpoonup> (int \<times> real) list" where
  "detour_edges = [1 \<mapsto> [(2, 5), (3, 1)], 2 \<mapsto> [(4, 1)], 3 \<mapsto> [(2, 1)], 4 \<mapsto> [(5, 1)]]"

definition diamond_nodes :: "int \<rightharpoonup> node_info" where
  "diamond_nodes = [1 \<mapsto> mk_node 0 0, 2 \<mapsto> mk_node (- 1) 0, 3 \<mapsto> mk_node 1 0,
                    4 \<mapsto> mk_node 2 0]"

definition diamond_edges :: "int \<rightharpoonup> (int \<times> real) list" where
  "diamond_edges = [1 \<mapsto> [(2, 1), (3, 2)], 2 \<mapsto> [(4, 3)], 3 \<mapsto> [(4, 2)]]"

definition chain_nodes :: "int \<rightharpoonup> node_info" where
  "chain_nodes = [1 \<mapsto> mk_node 0 0, 2 \<mapsto> mk_node 1 0, 3 \<mapsto> mk_node 2 0]"

definition chain_edges :: "int \<rightharpoonup> (int \<times> real) list" where
  "chain_edges = [1 \<mapsto> [(2, 1), (3, 3)], 2 \<mapsto> [(3, 1)]]"

definition detour_mid :: astate where
  "detour_mid =
     \<lparr>nodes = detour_nodes, edges = detour_edges, open_set = {3, 4}, closed_set = {1, 2},
      g_cost = (\<lambda>_. PInf)(1 := Fin 0, 2 := Fin 5, 3 := Fin 1, 4 := Fin 6),
      f_cost = (\<lambda>_. PInf)(1 := Fin 1, 2 := Fin 6, 3 := Fin 12, 4 := Fin 13),
      prev = [2 \<mapsto> 1, 3 \<mapsto> 1, 4 \<mapsto> 2]\<rparr>"







subsection \<open>Notions used in the proofs: the effect of an expansion\<close>

text \<open>
  The two cases in which relaxing an edge to \<open>v\<close> of cost \<open>c\<close> from a node of g-cost \<open>gc\<close>
  records a route: \<open>v\<close> is unseen, or the tentative g-cost is a strict improvement.
\<close>

definition improves :: "astate \<Rightarrow> real \<Rightarrow> int \<Rightarrow> real \<Rightarrow> bool" where
  "improves st gc v c \<longleftrightarrow>
     (v \<notin> open_set st \<and> v \<notin> closed_set st) \<or> Fin (gc + c) < g_cost st v"

text \<open>A node is updated by a list of edges when one of them improves it.\<close>

definition updated :: "astate \<Rightarrow> real \<Rightarrow> (int \<times> real) list \<Rightarrow> int \<Rightarrow> bool" where
  "updated st gc es v \<longleftrightarrow> (\<exists>c. (v, c) \<in> set es \<and> improves st gc v c)"

text \<open>The state after a relaxation that records a route to \<open>v\<close>.\<close>

definition route_recorded :: "astate \<Rightarrow> int \<Rightarrow> real \<Rightarrow> int \<Rightarrow> real \<Rightarrow> real \<Rightarrow> astate" where
  "route_recorded st current gc v c hv =
     st\<lparr>closed_set := closed_set st - {v}, open_set := insert v (open_set st),
        prev := (prev st)(v \<mapsto> current), g_cost := (g_cost st)(v := Fin (gc + c)),
        f_cost := (f_cost st)(v := Fin (gc + c + hv))\<rparr>"



subsection \<open>Properties of graphs\<close>

text \<open>Every edge cost is nonnegative.\<close>

definition nonneg_costs :: "(int \<rightharpoonup> (int \<times> real) list) \<Rightarrow> bool" where
  "nonneg_costs E \<longleftrightarrow> (\<forall>u v c. (v, c) \<in> set (edges_get E u) \<longrightarrow> 0 \<le> c)"

subsection \<open>Notions used in the proofs: invariants of the loop\<close>





subsection \<open>Directed paths\<close>

text \<open>
  A directed path from \<open>u\<close> to \<open>v\<close> is a list of steps \<open>(to_id, cost)\<close>, each an edge out of
  the node reached so far; its cost is the sum of the costs of its steps.
\<close>

fun walk :: "(int \<rightharpoonup> (int \<times> real) list) \<Rightarrow> int \<Rightarrow> (int \<times> real) list \<Rightarrow> int \<Rightarrow> bool" where
  "walk E u [] v = (u = v)"
| "walk E u (e # es) v = (e \<in> set (edges_get E u) \<and> walk E (fst e) es v)"

definition cost :: "(int \<times> real) list \<Rightarrow> real" where
  "cost steps = sum_list (map snd steps)"

text \<open>\<open>anc pv u v\<close>: following the predecessor links from \<open>v\<close> leads to \<open>u\<close>.\<close>

inductive anc :: "(int \<rightharpoonup> int) \<Rightarrow> int \<Rightarrow> int \<Rightarrow> bool"
  for pv :: "int \<rightharpoonup> int" and u :: int where
  anc_refl: "anc pv u u"
| anc_step: "pv v = Some p \<Longrightarrow> anc pv u p \<Longrightarrow> anc pv u v"
















text \<open>
  The states in which the test of \<open>while open_set\<close> is evaluated during the run that
  enters the loop in \<open>s0\<close>: \<open>s0\<close> itself, and the state after every expansion that raised
  no exception.
\<close>

inductive loop_state_fl :: "int \<Rightarrow> astate \<Rightarrow> astate \<Rightarrow> bool"
  for goal :: int and s0 :: astate where
  entry: "loop_state_fl goal s0 s0"
| iter: "loop_state_fl goal s0 st \<Longrightarrow> open_set st \<noteq> {} \<Longrightarrow> select st \<noteq> goal
         \<Longrightarrow> expand_fl goal (select st) st = (st', None) \<Longrightarrow> loop_state_fl goal s0 st'"



section \<open>Verification\<close>


subsection \<open>Basic facts\<close>

lemma ecost_less_simps [simp]:
  "Fin a < Fin b \<longleftrightarrow> a < b" "Fin a < PInf" "\<not> PInf < x"
  by (cases x; auto simp: less_ecost_def)+

lemma ecost_le_PInf [simp]: "PInf \<le> x \<longleftrightarrow> x = PInf"
  by (cases x) simp_all

lemma hypot_zero [simp]: "hypot dx 0 = \<bar>dx\<bar>"
  by (simp add: hypot_def)

lemma hypot_nonneg [simp]: "0 \<le> hypot dx dz"
  by (simp add: hypot_def)

lemma h_known:
  "N a = Some na \<Longrightarrow> N b = Some nb \<Longrightarrow>
   h N a b = Inr (hypot (node_x nb - node_x na) (node_z nb - node_z na))"
  by (simp add: h_def)

lemma h_unknown:
  "a \<notin> dom N \<or> b \<notin> dom N \<Longrightarrow> h N a b = Inl (KeyError (if b \<notin> dom N then b else a))"
  by (auto simp: h_def split: option.splits)

lemma h_self: "N a = Some na \<Longrightarrow> h N a a = Inr 0"
  by (simp add: h_def)

lemma select_singleton [simp]: "open_set st = {n} \<Longrightarrow> select st = n"
  by (simp add: select_def)

lemma select_key:
  assumes "finite (open_set st)" "open_set st \<noteq> {}"
  shows "select st \<in> open_set st"
    and "Min ((\<lambda>n. (f_cost st n, n)) ` open_set st) = (f_cost st (select st), select st)"
proof -
  let ?K = "(\<lambda>n. (f_cost st n, n)) ` open_set st"
  have "Min ?K \<in> ?K"
    using assms by (intro Min_in) auto
  then obtain m where m: "m \<in> open_set st" "Min ?K = (f_cost st m, m)"
    by auto
  then have "select st = m"
    by (simp add: select_def)
  with m show "select st \<in> open_set st"
    and "Min ?K = (f_cost st (select st), select st)"
    by simp_all
qed

lemma select_least:
  assumes "finite (open_set st)" "n \<in> open_set st"
  shows "f_cost st (select st) < f_cost st n
         \<or> (f_cost st (select st) = f_cost st n \<and> select st \<le> n)"
proof -
  let ?K = "(\<lambda>n. (f_cost st n, n)) ` open_set st"
  have ne: "open_set st \<noteq> {}"
    using assms by auto
  have "Min ?K \<le> (f_cost st n, n)"
    using assms by (intro Min_le) auto
  then have "(f_cost st (select st), select st) \<le> (f_cost st n, n)"
    using select_key(2)[OF assms(1) ne] by simp
  then show ?thesis
    by (auto simp: less_eq_prod_def)
qed


subsection \<open>The graph objects are only read\<close>

lemma record_route_graph:
  "nodes (fst (record_route goal current to_id tg st)) = nodes st
   \<and> edges (fst (record_route goal current to_id tg st)) = edges st"
  by (simp add: record_route_def Let_def split: sum.splits)

lemma relax_graph:
  "nodes (fst (relax goal current st e)) = nodes st
   \<and> edges (fst (relax goal current st e)) = edges st"
  by (cases e) (simp add: relax_def Let_def record_route_graph)

lemma relax_all_graph:
  "nodes (fst (relax_all goal current es st)) = nodes st
   \<and> edges (fst (relax_all goal current es st)) = edges st"
proof (induction es arbitrary: st)
  case Nil
  show ?case by simp
next
  case (Cons e es)
  obtain st' r where r: "relax goal current st e = (st', r)"
    by (cases "relax goal current st e")
  have g: "nodes st' = nodes st \<and> edges st' = edges st"
    using relax_graph[of goal current st e] r by simp
  show ?case
  proof (cases r)
    case None
    then show ?thesis
      using r g Cons.IH[of st'] by simp
  next
    case (Some err)
    then show ?thesis
      using r g by simp
  qed
qed

lemma expand_graph:
  "nodes (fst (expand goal current st)) = nodes st
   \<and> edges (fst (expand goal current st)) = edges st"
  by (simp add: expand_def Let_def relax_all_graph)

subsection \<open>How the loop returns\<close>

text \<open>
  A returned value of the loop comes from one of its three exits, each taken in a state
  that an invariant of the expansion step still holds in.
\<close>

lemma astar_loop_exits:
  assumes ret: "astar_loop goal st = Some (r, st')"
    and init: "I st"
    and step: "\<forall>s s'. I s \<and> open_set s \<noteq> {} \<and> select s \<noteq> goal
                 \<and> expand goal (select s) s = (s', None) \<longrightarrow> I s'"
  shows "\<exists>s. I s \<and>
           ((open_set s = {} \<and> r = Inr ([], PInf) \<and> st' = s)
            \<or> (open_set s \<noteq> {} \<and> select s = goal \<and> st' = s
                \<and> (\<exists>path. rebuild (prev s) goal [] = Some path \<and> r = Inr (path, g_cost s goal)))
            \<or> (open_set s \<noteq> {} \<and> select s \<noteq> goal
                \<and> (\<exists>e. expand goal (select s) s = (st', Some e) \<and> r = Inl e)))"
proof -
  let ?Q = "\<lambda>gl st y. gl = goal \<longrightarrow> I st \<longrightarrow> (\<exists>s. I s \<and>
           ((open_set s = {} \<and> fst y = Inr ([], PInf) \<and> snd y = s)
            \<or> (open_set s \<noteq> {} \<and> select s = goal \<and> snd y = s
                \<and> (\<exists>path. rebuild (prev s) goal [] = Some path \<and> fst y = Inr (path, g_cost s goal)))
            \<or> (open_set s \<noteq> {} \<and> select s \<noteq> goal
                \<and> (\<exists>e. expand goal (select s) s = (snd y, Some e) \<and> fst y = Inl e))))"
  have "?Q goal st (r, st')"
  proof (rule astar_loop.raw_induct[where P = ?Q, OF _ ret])
    fix loop :: "int \<Rightarrow> astate \<Rightarrow> (result \<times> astate) option" and gl s y
    assume IH: "\<And>st b y. loop st b = Some y \<Longrightarrow> ?Q st b y"
      and body': "(if open_set s = {} then Some (Inr ([], PInf), s)
        else let current = select s
             in if current = gl
                then case rebuild (prev s) gl [] of None \<Rightarrow> None
                     | Some path \<Rightarrow> Some (Inr (path, g_cost s gl), s)
                else case expand gl current s of
                     (st', None) \<Rightarrow> loop gl st'
                     | (st', Some err) \<Rightarrow> Some (Inl err, st')) = Some y"
    show "?Q gl s y"
    proof (intro impI)
      assume gl: "gl = goal" and Is: "I s"
      note body = body'[unfolded gl]
      show "\<exists>s. I s \<and>
           ((open_set s = {} \<and> fst y = Inr ([], PInf) \<and> snd y = s)
            \<or> (open_set s \<noteq> {} \<and> select s = goal \<and> snd y = s
                \<and> (\<exists>path. rebuild (prev s) goal [] = Some path \<and> fst y = Inr (path, g_cost s goal)))
            \<or> (open_set s \<noteq> {} \<and> select s \<noteq> goal
                \<and> (\<exists>e. expand goal (select s) s = (snd y, Some e) \<and> fst y = Inl e)))"
      proof (cases "open_set s = {}")
        case True
        with body Is show ?thesis by auto
      next
        case ne: False
        show ?thesis
        proof (cases "select s = goal")
          case True
          with body ne Is show ?thesis
            by (auto split: option.splits)
        next
          case ng: False
          obtain s1 e where ex: "expand goal (select s) s = (s1, e)"
            by (cases "expand goal (select s) s")
          show ?thesis
          proof (cases e)
            case None
            with body ne ng ex have "loop goal s1 = Some y"
              by simp
            moreover have "I s1"
              using step Is ne ng ex None by blast
            ultimately show ?thesis
              using IH by blast
          next
            case (Some err)
            with body ne ng ex have "y = (Inl err, s1)"
              by simp
            with Is ne ng ex Some show ?thesis
              by auto
          qed
        qed
      qed
    qed
  qed
  with init show ?thesis by simp
qed

lemmas eval_defs = select_def expand_def edges_get_def relax_def record_route_def h_def
  mk_node_def Let_def insert_Diff_if min_def init_def

lemma astar_run_chain:
  "\<exists>st. astar_run chain_nodes chain_edges 1 3 = Some (Inr ([1, 2, 3], Fin 2), st)"
  unfolding astar_run_def
  apply (simp add: eval_defs chain_nodes_def chain_edges_def)
  apply (subst astar_loop.simps, simp add: eval_defs)
  apply (subst astar_loop.simps, simp add: eval_defs)
  apply (subst astar_loop.simps, simp add: eval_defs)
  apply (subst rebuild.simps, simp)+
  done


lemma astar_diamond:
  "astar diamond_nodes diamond_edges 1 4 = Some (Inr ([1, 3, 4], Fin 4))"
  unfolding astar_def astar_run_def
  apply (simp add: eval_defs diamond_nodes_def diamond_edges_def)
  apply (subst astar_loop.simps, simp add: eval_defs)
  apply (subst astar_loop.simps, simp add: eval_defs)
  apply (subst astar_loop.simps, simp add: eval_defs)
  apply (subst astar_loop.simps, simp add: eval_defs)
  apply (subst rebuild.simps, simp)+
  done



lemma astar_run_detour_mid:
  "astar_run detour_nodes detour_edges 1 5 = astar_loop 5 detour_mid"
  unfolding astar_run_def
  apply (simp add: eval_defs detour_nodes_def detour_edges_def)
  apply (subst astar_loop.simps, simp add: eval_defs)
  apply (subst astar_loop.simps, simp add: eval_defs)
  apply (simp add: detour_mid_def detour_nodes_def detour_edges_def mk_node_def)
  apply (rule arg_cong[where f = "astar_loop 5"])
  apply (auto simp: fun_eq_iff)
  done

subsection \<open>Claim C3: the trivial query\<close>

text \<open>
  Claim C3. For every graph and every node id \<open>x\<close> present in the graph,
  \<open>astar(nodes, edges, x, x)\<close> returns the single-node path \<open>[x]\<close> with total cost 0,
  without relaxing any edge: the goal test of the first iteration returns, in the state
  the loop was entered in (nothing expanded, no predecessor recorded).
\<close>
theorem astar_trivial_query:
  assumes "x \<in> dom N"
  shows "astar N E x x = Some (Inr ([x], Fin 0))
         \<and> (\<exists>st. astar_run N E x x = Some (Inr ([x], Fin 0), st)
                \<and> open_set st = {x} \<and> closed_set st = {} \<and> prev st = Map.empty)"
proof -
  obtain nx where nx: "N x = Some nx"
    using assms by auto
  let ?st = "\<lparr>nodes = N, edges = E, open_set = {x}, closed_set = {},
              g_cost = (\<lambda>_. PInf)(x := Fin 0), f_cost = (\<lambda>_. PInf)(x := Fin 0),
              prev = Map.empty\<rparr>"
  have i: "init N E x x = (?st, None)"
    using h_self[of N x nx] nx by (simp add: init_def)
  have rb: "rebuild Map.empty x [] = Some [x]"
    by (subst rebuild.simps) simp
  have "astar_loop x ?st = Some (Inr ([x], Fin 0), ?st)"
    by (subst astar_loop.simps) (simp add: rb)
  then have "astar_run N E x x = Some (Inr ([x], Fin 0), ?st)"
    by (simp add: astar_run_def i)
  then show ?thesis
    by (simp add: astar_def)
qed

theorem astar_trivial_query_witness:
  "1 \<in> dom chain_nodes \<and> astar chain_nodes chain_edges 1 1 = Some (Inr ([1], Fin 0))"
  using astar_trivial_query[of 1 chain_nodes chain_edges]
  by (simp add: chain_nodes_def)

subsection \<open>Claim C5: unknown ids\<close>

text \<open>
  The claim as stated says that the failure is surfaced as a typed result and never as a
  crash. \<open>astar\<close> returns nothing but pairs of path and cost, and the source has no
  handler: with the goal id 9, which is not a node of \<open>chain\<close>, the first call of \<open>h\<close>
  raises \<open>KeyError(9)\<close> and the call of \<open>astar\<close> ends by that exception instead of
  returning a value.
\<close>

theorem astar_unknown_id_counterexample:
  "1 \<in> dom chain_nodes \<and> 9 \<notin> dom chain_nodes
   \<and> astar chain_nodes chain_edges 1 9 = Some (Inl (KeyError 9))
   \<and> \<not> returns_value (astar chain_nodes chain_edges 1 9)"
proof -
  have "astar chain_nodes chain_edges 1 9 = Some (Inl (KeyError 9))"
    by (simp add: astar_def astar_run_def init_def h_def chain_nodes_def)
  then show ?thesis
    by (simp add: returns_value_def chain_nodes_def)
qed

text \<open>
  Claim C5, amended. When the start id or the goal id is not a key of \<open>nodes\<close>, \<open>astar\<close>
  fails at once: the first call of \<open>h\<close>, before the loop, raises the exception \<open>KeyError\<close>
  that carries the unknown id (the goal's when both are unknown, since \<open>nodes[b]\<close> is
  read first), and \<open>astar\<close> ends by this exception, with nothing expanded. It returns no
  value, so not the "no path" value an isolated node would give. The same holds in
  double precision.
\<close>

theorem astar_unknown_id:
  assumes "start \<notin> dom N \<or> goal \<notin> dom N"
  shows "astar N E start goal = Some (Inl (KeyError (if goal \<notin> dom N then goal else start)))
         \<and> astar_fl N E start goal
             = Some (Inl (KeyError (if goal \<notin> dom N then goal else start)))
         \<and> \<not> returns_value (astar N E start goal)
         \<and> (\<exists>st. astar_run N E start goal
                    = Some (Inl (KeyError (if goal \<notin> dom N then goal else start)), st)
                \<and> open_set st = {start} \<and> closed_set st = {} \<and> prev st = Map.empty)"
proof -
  let ?k = "if goal \<notin> dom N then goal else start"
  have hx: "h N start goal = Inl (KeyError ?k)"
    by (rule h_unknown[OF assms])
  then have hf: "h_fl N start goal = Inl (KeyError ?k)"
    by (auto simp: h_def h_fl_def split: option.splits)
  from hx have "astar N E start goal = Some (Inl (KeyError ?k))"
    by (simp add: astar_def astar_run_def init_def)
  moreover from hf have "astar_fl N E start goal = Some (Inl (KeyError ?k))"
    by (simp add: astar_fl_def astar_run_fl_def init_fl_def)
  moreover from hx have "\<exists>st. astar_run N E start goal = Some (Inl (KeyError ?k), st)
      \<and> open_set st = {start} \<and> closed_set st = {} \<and> prev st = Map.empty"
    by (simp add: astar_run_def init_def)
  ultimately show ?thesis
    by (simp add: returns_value_def)
qed

theorem astar_unknown_id_witness:
  "7 \<notin> dom chain_nodes \<and> astar chain_nodes chain_edges 1 7 = Some (Inl (KeyError 7))
   \<and> astar chain_nodes chain_edges 7 1 = Some (Inl (KeyError 7))
   \<and> astar_fl chain_nodes chain_edges 1 7 = Some (Inl (KeyError 7))"
  using astar_unknown_id[of 1 chain_nodes 7 chain_edges]
    astar_unknown_id[of 7 chain_nodes 1 chain_edges]
  by (simp add: chain_nodes_def)

subsection \<open>Claim C6: the selection rule\<close>

text \<open>
  The claim as stated also says that, whenever several optimal paths exist, the path
  favouring the lower node id is returned. On \<open>diamond\<close> the two paths \<open>[1, 2, 4]\<close> and
  \<open>[1, 3, 4]\<close> both cost 4, and the search returns the one through node 3: node 3 has the
  smaller f-cost, so no tie arises when it is selected, and the later expansion of node 2
  does not improve the goal.
\<close>
theorem select_tie_break_counterexample:
  "astar diamond_nodes diamond_edges 1 4 = Some (Inr ([1, 3, 4], Fin 4))
   \<and> path_cost diamond_edges [1, 2, 4] = Some 4
   \<and> path_cost diamond_edges [1, 3, 4] = Some 4"
  by (simp add: astar_diamond)
     (simp add: diamond_edges_def edge_costs_def edges_get_def)

text \<open>
  Claim C6, amended. On every loop iteration (the open set is finite and not empty)
  \<open>astar\<close> selects from the open set a node with minimum f-cost, breaking ties by the
  smallest node id. This node is the only one of the open set with that property, so the
  selection does not depend on the order in which the set is iterated, and \<open>astar\<close> is a
  function of the graph, start and goal.
\<close>

theorem select_min_f_then_id:
  assumes "finite (open_set st)" and "open_set st \<noteq> {}"
  shows "select st \<in> open_set st
         \<and> (\<forall>n\<in>open_set st. f_cost st (select st) \<le> f_cost st n
               \<and> (f_cost st n = f_cost st (select st) \<longrightarrow> select st \<le> n))
         \<and> (\<forall>m\<in>open_set st.
               (\<forall>n\<in>open_set st. f_cost st m \<le> f_cost st n
                  \<and> (f_cost st n = f_cost st m \<longrightarrow> m \<le> n))
               \<longrightarrow> m = select st)"
proof (intro conjI ballI impI)
  show "select st \<in> open_set st"
    by (rule select_key(1)[OF assms])
next
  fix n assume "n \<in> open_set st"
  from select_least[OF assms(1) this]
  show "f_cost st (select st) \<le> f_cost st n" by auto
next
  fix n assume "n \<in> open_set st" "f_cost st n = f_cost st (select st)"
  with select_least[OF assms(1), of n]
  show "select st \<le> n" by auto
next
  fix m
  assume m: "m \<in> open_set st"
    and least: "\<forall>n\<in>open_set st. f_cost st m \<le> f_cost st n
                  \<and> (f_cost st n = f_cost st m \<longrightarrow> m \<le> n)"
  have s: "select st \<in> open_set st"
    by (rule select_key(1)[OF assms])
  from least s select_least[OF assms(1) m]
  show "m = select st" by auto
qed

theorem select_min_f_then_id_witness:
  "finite (open_set detour_mid) \<and> open_set detour_mid \<noteq> {} \<and> select detour_mid = 3
   \<and> f_cost detour_mid 3 \<le> f_cost detour_mid 4"
  using select_min_f_then_id[of detour_mid]
  by (simp add: detour_mid_def)

subsection \<open>Claim C9: the graph is only read\<close>

text \<open>
  Claim C9. For every invocation \<open>astar(nodes, edges, start, goal)\<close> that returns (a value
  or an exception), the \<open>nodes\<close> mapping and the \<open>edges\<close> multimap are the same after the
  call as before it; only the search state (open, closed, g, f, predecessor) is written.
\<close>
theorem astar_graph_unchanged:
  assumes "astar_run N E start goal = Some (r, st)"
  shows "nodes st = N \<and> edges st = E"
proof (cases "init N E start goal")
  case (Pair s0 e0)
  have s0: "nodes s0 = N \<and> edges s0 = E"
    using Pair by (auto simp: init_def Let_def split: sum.splits)
  show ?thesis
  proof (cases e0)
    case (Some e)
    with Pair assms s0 show ?thesis
      by (simp add: astar_run_def)
  next
    case None
    with Pair assms have ret: "astar_loop goal s0 = Some (r, st)"
      by (simp add: astar_run_def)
    let ?I = "\<lambda>s. nodes s = N \<and> edges s = E"
    have step: "\<forall>s s'. ?I s \<and> open_set s \<noteq> {} \<and> select s \<noteq> goal
        \<and> expand goal (select s) s = (s', None) \<longrightarrow> ?I s'"
    proof (intro allI impI)
      fix s s' :: astate
      assume "?I s \<and> open_set s \<noteq> {} \<and> select s \<noteq> goal
        \<and> expand goal (select s) s = (s', None)"
      then show "?I s'"
        using expand_graph[of goal "select s" s] by simp
    qed
    have "\<exists>s. ?I s \<and>
           ((open_set s = {} \<and> r = Inr ([], PInf) \<and> st = s)
            \<or> (open_set s \<noteq> {} \<and> select s = goal \<and> st = s
                \<and> (\<exists>path. rebuild (prev s) goal [] = Some path \<and> r = Inr (path, g_cost s goal)))
            \<or> (open_set s \<noteq> {} \<and> select s \<noteq> goal
                \<and> (\<exists>e. expand goal (select s) s = (st, Some e) \<and> r = Inl e)))"
      by (rule astar_loop_exits[where I = ?I, OF ret s0 step])
    then obtain s where s: "?I s"
      and alt: "st = s \<or> (\<exists>e. expand goal (select s) s = (st, Some e))"
      by blast
    from alt show ?thesis
    proof
      assume "st = s"
      with s show ?thesis by simp
    next
      assume "\<exists>e. expand goal (select s) s = (st, Some e)"
      then obtain e where "expand goal (select s) s = (st, Some e)" ..
      with expand_graph[of goal "select s" s] s show ?thesis by simp
    qed
  qed
qed

theorem astar_graph_unchanged_witness:
  "\<exists>st. astar_run chain_nodes chain_edges 1 3 = Some (Inr ([1, 2, 3], Fin 2), st)
       \<and> nodes st = chain_nodes \<and> edges st = chain_edges"
  using astar_run_chain astar_graph_unchanged[of chain_nodes chain_edges 1 3]
  by blast

subsection \<open>Claim C8: termination\<close>


subsection \<open>A single relaxation\<close>


subsection \<open>The loop over the edges of a node\<close>

lemma updated_Nil [simp]: "\<not> updated st gc [] v"
  by (simp add: updated_def)



lemma route_recorded_simps [simp]:
  "nodes (route_recorded st cur gc v c hv) = nodes st"
  "edges (route_recorded st cur gc v c hv) = edges st"
  "open_set (route_recorded st cur gc v c hv) = insert v (open_set st)"
  "closed_set (route_recorded st cur gc v c hv) = closed_set st - {v}"
  "g_cost (route_recorded st cur gc v c hv) = (g_cost st)(v := Fin (gc + c))"
  "f_cost (route_recorded st cur gc v c hv) = (f_cost st)(v := Fin (gc + c + hv))"
  "prev (route_recorded st cur gc v c hv) = (prev st)(v \<mapsto> cur)"
  by (simp_all add: route_recorded_def)



subsection \<open>The expansion of a node\<close>


subsection \<open>The basic invariant is kept by an expansion\<close>











subsection \<open>The loop on entry and the rebuilt path\<close>










subsection \<open>Claim C10: the returned path is a path of the graph\<close>





lemma walk_last: "walk E u xs v \<Longrightarrow> last (u # map fst xs) = v"
  by (induction xs arbitrary: u) auto

lemma walk_nonneg:
  "nonneg_costs E \<Longrightarrow> walk E u xs v \<Longrightarrow> (v', c) \<in> set xs \<Longrightarrow> 0 \<le> c"
  by (induction xs arbitrary: u) (auto simp: nonneg_costs_def)



subsection \<open>The predecessor chain of every seen node ends at the start\<close>

lemma anc_trans: "anc pv b a \<Longrightarrow> anc pv c b \<Longrightarrow> anc pv c a"
  by (induction rule: anc.induct) (auto intro: anc.intros)








subsection \<open>Every g-cost is the cost of a simple path from the start\<close>



subsection \<open>No exception on a graph whose edges lead to known nodes\<close>





subsection \<open>Every edge out of a closed node is relaxed\<close>


subsection \<open>Ancestors before and after an expansion\<close>






subsection \<open>The recorded costs do not drift from the predecessor links\<close>










subsection \<open>A measure that every expansion decreases\<close>








subsection \<open>The invariant of the loop\<close>



subsection \<open>The loop returns\<close>









subsection \<open>Claim C8: termination, amended\<close>



subsection \<open>Claim C4: an unreachable goal\<close>





subsection \<open>At the goal test the recorded cost is the cost of the predecessor chain\<close>







subsection \<open>Facts about the example graphs\<close>


subsection \<open>The heuristic never overestimates when edge costs dominate the distances\<close>







subsection \<open>The goal is selected with the least cost of any path\<close>




subsection \<open>Rounding\<close>

lemma round_even_int [simp]: "round_even (of_int n) = n"
  by (simp add: round_even_def)



lemma rnd_zero [simp]: "rnd 0 = 0"
  by (simp add: rnd_def)

text \<open>A whole number below \<open>2 ^ 53\<close> is a double.\<close>

lemma rnd_int:
  assumes "\<bar>real_of_int n\<bar> < 2 ^ 53"
  shows "rnd (of_int n) = of_int n"
proof (cases "n = 0")
  case True
  then show ?thesis by simp
next
  case False
  let ?x = "real_of_int n"
  have "1 \<le> \<bar>n\<bar>" using False by linarith
  then have "real_of_int 1 \<le> real_of_int \<bar>n\<bar>" by (simp only: of_int_le_iff)
  then have x1: "1 \<le> \<bar>?x\<bar>" by simp
  then have "0 \<le> log 2 \<bar>?x\<bar>" by simp
  moreover have "log 2 \<bar>?x\<bar> < 53"
  proof -
    have "log 2 \<bar>?x\<bar> < log 2 (2 ^ 53)"
      using assms x1 by (subst log_less_cancel_iff) simp_all
    moreover have "log 2 ((2::real) ^ 53) = real 53"
      by (rule log_pow_cancel) simp_all
    ultimately show ?thesis by (simp only: of_nat_numeral)
  qed
  ultimately have e: "0 \<le> expo ?x" "expo ?x \<le> 52"
    unfolding expo_def by (simp_all add: floor_le_iff le_floor_iff)
  define j where "j = nat (52 - expo ?x)"
  have u: "ulp ?x = 1 / 2 ^ j"
  proof -
    have "ulp ?x = 2 powr (- real j)"
      using e by (simp add: ulp_def j_def)
    also have "\<dots> = 1 / 2 ^ j"
      by (simp add: powr_minus powr_realpow field_simps)
    finally show ?thesis .
  qed
  have "?x / ulp ?x = of_int (n * 2 ^ j)"
    by (simp add: u)
  then have "round_even (?x / ulp ?x) = n * 2 ^ j"
    by (simp only: round_even_int)
  then show ?thesis
    using False by (simp add: rnd_def u)
qed

lemma to_float_int:
  assumes "\<bar>real_of_int n\<bar> < 2 ^ 53"
  shows "to_float (of_int n) = Fin (of_int n)"
proof -
  have "real_of_int n < 2 ^ 1024"
  proof -
    have "real_of_int n < 2 ^ 53" using assms by simp
    also have "\<dots> \<le> 2 ^ 1024" by (rule power_increasing) simp_all
    finally show ?thesis .
  qed
  then show ?thesis
    by (simp add: to_float_def rnd_int[OF assms] Let_def)
qed

lemma to_float_zero [simp]: "to_float 0 = Fin 0"
  using to_float_int[of 0] by simp

lemma to_float_one [simp]: "to_float 1 = Fin 1"
  using to_float_int[of 1] by simp

lemma to_float_numeral [simp]:
  "(numeral k :: real) < 2 ^ 53 \<Longrightarrow> to_float (numeral k) = Fin (numeral k)"
  using to_float_int[of "numeral k"] by simp

lemma fadd_zero [simp]: "fadd (Fin 0) (Fin c) = to_float c" "fadd (Fin c) (Fin 0) = to_float c"
  by simp_all



subsection \<open>Runs in double precision on large costs\<close>

lemma hypot_fl_zero [simp]: "hypot_fl 0 0 = Fin 0"
proof -
  have "\<not> (2::real) ^ 1024 \<le> 0" by (simp add: not_le)
  then show ?thesis by (simp add: hypot_fl_def)
qed






subsection \<open>Where no operation rounds, the search in double precision is the exact one\<close>









subsection \<open>Whole numbers below \<open>2 ^ 53\<close> are added exactly\<close>


lemma rnd_numeral [simp]: "(numeral k :: real) < 2 ^ 53 \<Longrightarrow> rnd (numeral k) = numeral k"
  using rnd_int[of "numeral k"] by simp

lemma rnd_one [simp]: "rnd 1 = 1"
  using rnd_int[of 1] by simp

lemma hypot_fl_axis:
  assumes "\<bar>dx\<bar> < 2 ^ 53"
  shows "hypot_fl dx 0 = to_float \<bar>dx\<bar>"
proof -
  have "\<bar>dx\<bar> < 2 ^ 1024"
  proof -
    note assms
    also have "(2::real) ^ 53 \<le> 2 ^ 1024" by (rule power_increasing) simp_all
    finally show ?thesis .
  qed
  then have "\<not> 2 ^ 1024 \<le> \<bar>dx\<bar>" by simp
  moreover have "\<not> (2::real) ^ 1024 \<le> 0" by (simp add: not_le)
  ultimately show ?thesis by (simp add: hypot_fl_def)
qed

lemma hypot_fl_numeral [simp]:
  "(numeral k :: real) < 2 ^ 53 \<Longrightarrow> hypot_fl (numeral k) 0 = Fin (numeral k)"
  using hypot_fl_axis[of "numeral k"] by simp

lemma hypot_fl_one [simp]: "hypot_fl 1 0 = Fin 1"
  using hypot_fl_axis[of 1] by simp




subsection \<open>The example graphs are graphs of whole numbers\<close>




subsection \<open>Claim C2: the returned cost and the cost of the returned path\<close>




subsection \<open>Claim C1: optimality\<close>




subsection \<open>The states of a run and its result\<close>






subsection \<open>Runs in double precision on \<open>neg\<close>, \<open>longhaul\<close> and \<open>detour\<close>\<close>

lemma to_float_neg_numeral [simp]:
  "(numeral k :: real) < 2 ^ 53 \<Longrightarrow> to_float (- numeral k) = Fin (- numeral k)"
  using to_float_int[of "- numeral k"] by simp

lemma to_float_neg_one [simp]: "to_float (- 1) = Fin (- 1)"
  using to_float_int[of "- 1"] by simp






subsection \<open>Claim C7: reopening on improvement\<close>







end
